theory Spec2Isabelle
  imports Main
begin

section \<open>The Reflector metadata registry of rbxts-reflector\<close>

text \<open>
  The program is \<^verbatim>\<open>src/index.ts\<close>, a roblox-ts module: it calls the globals
  \<^verbatim>\<open>tostring\<close> and \<^verbatim>\<open>typeIs\<close> and reads a map's size with the method call
  \<^verbatim>\<open>map.size()\<close>. A \<^verbatim>\<open>Map\<close> of roblox-ts is a Luau table, so storing the absent
  value under a key erases the key, reading a missing key gives the absent value, and
  reading a field of the absent value raises.
\<close>

subsection \<open>Values\<close>

text \<open>
  A run-time value (the type \<^verbatim>\<open>any\<close> of the source) is the absent value
  \<^verbatim>\<open>undefined\<close>, a string, or a reference to an object or class. Objects have
  identity: \<open>Obj r\<close> and \<open>Obj r'\<close> are the same object exactly when \<open>r = r'\<close>.
  Numbers and booleans are left out: the program only ever compares a metadata value
  with \<^verbatim>\<open>undefined\<close>, and the type \<^verbatim>\<open>Target\<close> of the source is an object type.
\<close>

datatype any = Undefined | Str string | Obj nat

text \<open>\<^verbatim>\<open>type PropertyKey = string | symbol\<close>; an optional parameter is an \<open>option\<close>.\<close>

datatype PropertyKey = PStr string | PSym nat

text \<open>
  \<^verbatim>\<open>tostring\<close> belongs to the host. A string is its own rendering; how an object or
  a symbol is rendered is a parameter of the model. So is the table that an object
  delegates to when it lacks a field (its \<^verbatim>\<open>__index\<close>): the class of an instance,
  the superclass of a class, \<open>None\<close> for a plain table.
\<close>

record host =
  tostring_obj :: "nat \<Rightarrow> string"
  tostring_sym :: "nat \<Rightarrow> string"
  parent :: "nat \<Rightarrow> nat option"

fun tostring :: "host \<Rightarrow> any \<Rightarrow> string" where
  "tostring h Undefined = ''nil''"
| "tostring h (Str s) = s"
| "tostring h (Obj r) = tostring_obj h r"

fun tostring_key :: "host \<Rightarrow> PropertyKey \<Rightarrow> string" where
  "tostring_key h (PStr s) = s"
| "tostring_key h (PSym n) = tostring_sym h n"

definition typeIs_string :: "any \<Rightarrow> bool" where
  "typeIs_string v = (case v of Str _ \<Rightarrow> True | _ \<Rightarrow> False)"

subsection \<open>Maps\<close>

text \<open>
  A \<^verbatim>\<open>Map\<close> is a list of entries with pairwise different keys. \<open>map_set\<close> replaces
  the value of a key that is present where it stands and adds a new key at the end, so
  the list is in the order of first insertion. Luau promises no order of traversal;
  the model traverses a map in the order of first insertion, the order that the
  specification asks for. No property below depends on the order of two keys.
\<close>

type_synonym ('k, 'v) tsmap = "('k \<times> 'v) list"

definition map_has :: "('k, 'v) tsmap \<Rightarrow> 'k \<Rightarrow> bool" where
  "map_has m k = (map_of m k \<noteq> None)"

definition map_get :: "('k, 'v) tsmap \<Rightarrow> 'k \<Rightarrow> 'v option" where
  "map_get m k = map_of m k"

primrec map_set :: "('k, 'v) tsmap \<Rightarrow> 'k \<Rightarrow> 'v \<Rightarrow> ('k, 'v) tsmap" where
  "map_set [] k v = [(k, v)]"
| "map_set (p # ps) k v = (if fst p = k then (k, v) # ps else p # map_set ps k v)"

definition map_erase :: "('k, 'v) tsmap \<Rightarrow> 'k \<Rightarrow> ('k, 'v) tsmap" where
  "map_erase m k = filter (\<lambda>p. fst p \<noteq> k) m"

text \<open>
  \<^verbatim>\<open>type MetadataStore = Map<string, Map<string, any>>\<close>. The inner map holds
  values of type \<^verbatim>\<open>any\<close>: reading a missing key gives \<open>Undefined\<close>, and storing
  \<open>Undefined\<close> erases the key. The key of the inner map is declared a string; the
  source reaches it through the cast \<^verbatim>\<open>metadataKeyOrValue as string\<close>, which does
  nothing at run time, so the model keys the inner map by \<open>any\<close>. A table cannot be
  written at the absent key: that raises.
\<close>

type_synonym Metadata = "(any, any) tsmap"
type_synonym MetadataStore = "(string, Metadata) tsmap"

datatype error = IndexAbsent | IndexString | KeyAbsent | CallAbsent

datatype 'a outcome = Raised error | Returned 'a

definition metadata_get :: "Metadata \<Rightarrow> any \<Rightarrow> any" where
  "metadata_get m k = (case map_get m k of None \<Rightarrow> Undefined | Some v \<Rightarrow> v)"

definition metadata_set :: "Metadata \<Rightarrow> any \<Rightarrow> any \<Rightarrow> Metadata outcome" where
  "metadata_set m k v =
     (if k = Undefined then Raised KeyAbsent
      else if v = Undefined then Returned (map_erase m k)
      else Returned (map_set m k v))"

subsection \<open>The heap\<close>

text \<open>
  The only field of an object that the program touches is \<^verbatim>\<open>__metadataStore\<close>. The
  heap gives, for every object, the store that the object itself holds in that field,
  or \<open>None\<close> where it holds none.
\<close>

type_synonym heap = "nat \<Rightarrow> MetadataStore option"

definition empty_heap :: heap where
  "empty_heap = (\<lambda>r. None)"

text \<open>
  Reading \<^verbatim>\<open>target.__metadataStore\<close> is an ordinary field read: an object that does
  not hold the field itself passes the read on to the table it delegates to, and so
  on. \<open>lookup_chain\<close> lists the objects that the read visits, in order. Objects are
  numbered in the order of their creation, and the table an object delegates to
  exists before the object does, so the chain descends. \<open>field_owner\<close> is the first
  object of the chain that holds a store, and \<open>read_field\<close> is what the read yields.
  An assignment to the field always writes the object itself.
\<close>

function lookup_chain :: "host \<Rightarrow> nat \<Rightarrow> nat list" where
  "lookup_chain h r =
     r # (case parent h r of
            None \<Rightarrow> []
          | Some p \<Rightarrow> if p < r then lookup_chain h p else [])"
  by pat_completeness auto
termination
  by (relation "measure snd") auto

declare lookup_chain.simps [simp del]

definition field_owner :: "host \<Rightarrow> heap \<Rightarrow> nat \<Rightarrow> nat option" where
  "field_owner h s r = find (\<lambda>x. s x \<noteq> None) (lookup_chain h r)"

definition read_field :: "host \<Rightarrow> heap \<Rightarrow> nat \<Rightarrow> MetadataStore option" where
  "read_field h s r = (case field_owner h s r of None \<Rightarrow> None | Some x \<Rightarrow> s x)"

text \<open>
  A store is a table of its own, reached through the object that holds it: a handle
  on a store is the reference of that object.
\<close>

definition store_of :: "heap \<Rightarrow> nat \<Rightarrow> MetadataStore" where
  "store_of s r = (case s r of None \<Rightarrow> [] | Some ms \<Rightarrow> ms)"

definition store_set :: "nat \<Rightarrow> string \<Rightarrow> Metadata \<Rightarrow> heap \<Rightarrow> heap" where
  "store_set r keyId m s = s(r \<mapsto> map_set (store_of s r) keyId m)"

subsection \<open>The helpers of \<^verbatim>\<open>src/index.ts\<close>\<close>

definition getKeyId :: "host \<Rightarrow> any \<Rightarrow> PropertyKey option \<Rightarrow> string" where
  "getKeyId h target propertyKey =
     (case propertyKey of
        None \<Rightarrow> tostring h target
      | Some p \<Rightarrow> tostring h target @ ''.'' @ tostring_key h p)"

text \<open>
  \<^verbatim>\<open>new Array<K>(map.size())\<close> reserves room and is empty; \<^verbatim>\<open>forEach\<close> pushes every
  key.
\<close>

definition getMapKeys :: "('k, 'v) tsmap \<Rightarrow> 'k list" where
  "getMapKeys m = foldl (\<lambda>result p. result @ [fst p]) [] m"

text \<open>
  \<^verbatim>\<open>getMetadataStore\<close>: the absent target has no store; a string has no field
  \<^verbatim>\<open>__metadataStore\<close>; for an object the result is what the field read yields.
\<close>

definition getMetadataStore :: "host \<Rightarrow> any \<Rightarrow> heap \<Rightarrow> MetadataStore option" where
  "getMetadataStore h target s =
     (case target of
        Undefined \<Rightarrow> None
      | Str _ \<Rightarrow> None
      | Obj r \<Rightarrow> read_field h s r)"

text \<open>
  \<^verbatim>\<open>createOrGetMetadataStore\<close>: the guard \<^verbatim>\<open>target && ...\<close> fails for the absent
  target, and the \<^verbatim>\<open>return\<close> then reads a field of it, which raises. For a string
  the guard holds and the assignment to its field raises. For an object, a new map is
  assigned to the object when the field read yields nothing; the result is what the
  field read yields then, as a handle (\<open>None\<close> for the absent value).
\<close>

definition createOrGetMetadataStore ::
  "host \<Rightarrow> any \<Rightarrow> heap \<Rightarrow> nat option outcome \<times> heap" where
  "createOrGetMetadataStore h target s =
     (case target of
        Undefined \<Rightarrow> (Raised IndexAbsent, s)
      | Str _ \<Rightarrow> (Raised IndexString, s)
      | Obj r \<Rightarrow>
          (let s1 = (if read_field h s r = None then s(r \<mapsto> []) else s)
           in (Returned (field_owner h s1 r), s1)))"

subsection \<open>The read operations\<close>

definition hasMetadata ::
  "host \<Rightarrow> any \<Rightarrow> any \<Rightarrow> PropertyKey option \<Rightarrow> heap \<Rightarrow> bool outcome \<times> heap" where
  "hasMetadata h target metadataKey propertyKey s =
     (case getMetadataStore h target s of
        None \<Rightarrow> (Returned False, s)
      | Some metadataStore \<Rightarrow>
          (let keyId = getKeyId h target propertyKey in
           if \<not> map_has metadataStore keyId then (Returned False, s)
           else (case map_get metadataStore keyId of
                   None \<Rightarrow> (Raised IndexAbsent, s)
                 | Some m \<Rightarrow>
                     if metadata_get m metadataKey = Undefined then (Returned False, s)
                     else (Returned True, s))))"

definition getMetadata ::
  "host \<Rightarrow> any \<Rightarrow> any \<Rightarrow> PropertyKey option \<Rightarrow> heap \<Rightarrow> any outcome \<times> heap" where
  "getMetadata h target metadataKey propertyKey s =
     (case getMetadataStore h target s of
        None \<Rightarrow> (Returned Undefined, s)
      | Some metadataStore \<Rightarrow>
          (let keyId = getKeyId h target propertyKey in
           if map_has metadataStore keyId
           then (case map_get metadataStore keyId of
                   None \<Rightarrow> (Raised IndexAbsent, s)
                 | Some m \<Rightarrow> (Returned (metadata_get m metadataKey), s))
           else (Returned Undefined, s)))"

definition getMetadataKeys ::
  "host \<Rightarrow> any \<Rightarrow> PropertyKey option \<Rightarrow> heap \<Rightarrow> any list option outcome \<times> heap" where
  "getMetadataKeys h target propertyKey s =
     (case getMetadataStore h target s of
        None \<Rightarrow> (Returned None, s)
      | Some metadataStore \<Rightarrow>
          (let keyId = getKeyId h target propertyKey in
           case map_get metadataStore keyId of
             None \<Rightarrow> (Returned None, s)
           | Some metadata \<Rightarrow> (Returned (Some (getMapKeys metadata)), s)))"

subsection \<open>\<^verbatim>\<open>defineMetadata\<close>\<close>

text \<open>
  The body that writes one entry. The source has it twice, once in the function that
  the declarative form returns (\<open>annotator\<close>, lines 89 to 97) and once as the
  imperative path (\<open>define_imperative\<close>, lines 101 to 110).
\<close>

definition annotator ::
  "host \<Rightarrow> any \<Rightarrow> any \<Rightarrow> any \<Rightarrow> PropertyKey option \<Rightarrow> heap \<Rightarrow> unit outcome \<times> heap" where
  "annotator h metadataKey metadataValue target propertyKey s =
     (case createOrGetMetadataStore h target s of
        (Raised e, s1) \<Rightarrow> (Raised e, s1)
      | (Returned metadataStore, s1) \<Rightarrow>
          (let keyId = getKeyId h target propertyKey in
           case hasMetadata h target metadataKey propertyKey s1 of
             (Raised e, s2) \<Rightarrow> (Raised e, s2)
           | (Returned hasMd, s2) \<Rightarrow>
               (case metadataStore of
                  None \<Rightarrow> (Raised IndexAbsent, s2)
                | Some st \<Rightarrow>
                    (let s3 = (if \<not> hasMd then store_set st keyId [] s2 else s2) in
                     case map_get (store_of s3 st) keyId of
                       None \<Rightarrow> (Raised IndexAbsent, s3)
                     | Some m \<Rightarrow>
                         (case metadata_set m metadataKey metadataValue of
                            Raised e \<Rightarrow> (Raised e, s3)
                          | Returned m' \<Rightarrow> (Returned (), store_set st keyId m' s3))))))"

definition define_imperative ::
  "host \<Rightarrow> any \<Rightarrow> any \<Rightarrow> any \<Rightarrow> PropertyKey option \<Rightarrow> heap \<Rightarrow> unit outcome \<times> heap" where
  "define_imperative h target metadataKey metadataValue propertyKey s =
     (case createOrGetMetadataStore h target s of
        (Raised e, s1) \<Rightarrow> (Raised e, s1)
      | (Returned metadataStore, s1) \<Rightarrow>
          (let keyId = getKeyId h target propertyKey in
           case hasMetadata h target metadataKey propertyKey s1 of
             (Raised e, s2) \<Rightarrow> (Raised e, s2)
           | (Returned hasMd, s2) \<Rightarrow>
               (case metadataStore of
                  None \<Rightarrow> (Raised IndexAbsent, s2)
                | Some st \<Rightarrow>
                    (let s3 = (if \<not> hasMd then store_set st keyId [] s2 else s2) in
                     case map_get (store_of s3 st) keyId of
                       None \<Rightarrow> (Raised IndexAbsent, s3)
                     | Some m \<Rightarrow>
                         (case metadata_set m metadataKey metadataValue of
                            Raised e \<Rightarrow> (Raised e, s3)
                          | Returned m' \<Rightarrow> (Returned (), store_set st keyId m' s3))))))"

text \<open>
  What a call of \<^verbatim>\<open>defineMetadata\<close> returns: nothing, or the function made by the
  declarative form, which is the pair of the key and the value it has captured.
\<close>

datatype ret = Void | Decorator any any

definition defineMetadata ::
  "host \<Rightarrow> any \<Rightarrow> any \<Rightarrow> any \<Rightarrow> PropertyKey option \<Rightarrow> heap \<Rightarrow> ret outcome \<times> heap" where
  "defineMetadata h targetOrMetadataKey metadataKeyOrValue metadataValue propertyKey s =
     (if metadataValue = Undefined \<and> propertyKey = None \<and> typeIs_string targetOrMetadataKey
      then (Returned (Decorator targetOrMetadataKey metadataKeyOrValue), s)
      else (case define_imperative h targetOrMetadataKey metadataKeyOrValue metadataValue
                   propertyKey s of
              (Raised e, s') \<Rightarrow> (Raised e, s')
            | (Returned _, s') \<Rightarrow> (Returned Void, s')))"

text \<open>Calling a value returned by \<^verbatim>\<open>defineMetadata\<close> on a target and a member.\<close>

fun invoke :: "host \<Rightarrow> ret \<Rightarrow> any \<Rightarrow> PropertyKey option \<Rightarrow> heap \<Rightarrow> unit outcome \<times> heap" where
  "invoke h (Decorator metadataKey metadataValue) target propertyKey s =
     annotator h metadataKey metadataValue target propertyKey s"
| "invoke h Void target propertyKey s = (Raised CallAbsent, s)"

subsection \<open>Runs of the program\<close>

text \<open>
  The metadata map of one scope: the entry that the store read from object \<open>r\<close>
  holds under the scope ID of the member \<open>propertyKey\<close> (of the object itself for
  \<open>None\<close>).
\<close>

definition scope :: "host \<Rightarrow> heap \<Rightarrow> nat \<Rightarrow> PropertyKey option \<Rightarrow> Metadata option" where
  "scope h s r propertyKey =
     (case read_field h s r of
        None \<Rightarrow> None
      | Some ms \<Rightarrow> map_get ms (getKeyId h (Obj r) propertyKey))"

text \<open>
  The object whose store a definition on object \<open>r\<close> writes: the holder of the store
  that the field read finds, or \<open>r\<close> itself when it finds none.
\<close>

definition target_owner :: "host \<Rightarrow> heap \<Rightarrow> nat \<Rightarrow> nat" where
  "target_owner h s r = (case field_owner h s r of None \<Rightarrow> r | Some x \<Rightarrow> x)"

text \<open>
  The map that the writing body leaves in the scope it writes, from the map \<open>old\<close> it
  finds there: the old map is kept only when it holds the key with a value other than
  \<open>Undefined\<close>; then the entry is written.
\<close>

definition written :: "Metadata option \<Rightarrow> any \<Rightarrow> any \<Rightarrow> Metadata" where
  "written old K V =
     (let m = (case old of None \<Rightarrow> [] | Some m \<Rightarrow> if metadata_get m K = Undefined then [] else m)
      in case metadata_set m K V of Raised e \<Rightarrow> m | Returned m' \<Rightarrow> m')"

text \<open>
  A caller changes the heap by calling \<^verbatim>\<open>defineMetadata\<close> or by calling a function
  that the declarative form has returned. \<open>run\<close> performs a list of such calls in
  order; a call that raises leaves the heap as it is at the raise.
\<close>

datatype event =
  Define any any any "PropertyKey option"
| Annotate any any any "PropertyKey option"

fun perform :: "host \<Rightarrow> event \<Rightarrow> heap \<Rightarrow> heap" where
  "perform h (Define a1 a2 a3 a4) s = snd (defineMetadata h a1 a2 a3 a4 s)"
| "perform h (Annotate k v t pk) s = snd (invoke h (Decorator k v) t pk s)"

definition run :: "host \<Rightarrow> event list \<Rightarrow> heap \<Rightarrow> heap" where
  "run h es s = foldl (\<lambda>s e. perform h e s) s es"

text \<open>
  Two objects can reach one store only if their lookup chains meet. A call can write
  key \<open>K\<close> into the scope that \<^verbatim>\<open>hasMetadata(r, K)\<close> reads only if it names \<open>K\<close>, its
  scope ID is the scope ID of \<open>r\<close> without a member, and the chain of its target meets
  the chain of \<open>r\<close>. Where no object delegates to another, that is a call that names
  \<open>r\<close>, \<open>K\<close> and no member.
\<close>

definition shares_chain :: "host \<Rightarrow> nat \<Rightarrow> nat \<Rightarrow> bool" where
  "shares_chain h r r' = (\<exists>x \<in> set (lookup_chain h r). x \<in> set (lookup_chain h r'))"

definition names_scope :: "host \<Rightarrow> any \<Rightarrow> any \<Rightarrow> PropertyKey option \<Rightarrow> nat \<Rightarrow> any \<Rightarrow> bool" where
  "names_scope h target metadataKey propertyKey r K =
     (case target of
        Obj r' \<Rightarrow> metadataKey = K
                  \<and> getKeyId h target propertyKey = getKeyId h (Obj r) None
                  \<and> shares_chain h r r'
      | _ \<Rightarrow> False)"

fun writes_scope :: "host \<Rightarrow> event \<Rightarrow> nat \<Rightarrow> any \<Rightarrow> bool" where
  "writes_scope h (Define a1 a2 a3 a4) r K = names_scope h a1 a2 a4 r K"
| "writes_scope h (Annotate k v t pk) r K = names_scope h t k pk r K"

text \<open>
  Key \<open>K\<close> is unwritten for object \<open>r\<close> when no store held by an object of the
  lookup chain of \<open>r\<close> has, under the scope ID of \<open>r\<close> without a member, a map
  that holds \<open>K\<close> with a value other than \<open>Undefined\<close>.
\<close>

definition unwritten :: "host \<Rightarrow> heap \<Rightarrow> nat \<Rightarrow> any \<Rightarrow> bool" where
  "unwritten h s r K =
     (\<forall>x \<in> set (lookup_chain h r).
        case s x of
          None \<Rightarrow> True
        | Some ms \<Rightarrow> (case map_get ms (getKeyId h (Obj r) None) of
                       None \<Rightarrow> True
                     | Some m \<Rightarrow> metadata_get m K = Undefined))"

text \<open>Defining one key of the entity scope of a target again and again.\<close>

definition define_all :: "host \<Rightarrow> any \<Rightarrow> any \<Rightarrow> any list \<Rightarrow> heap \<Rightarrow> heap" where
  "define_all h target metadataKey vs s =
     foldl (\<lambda>s v. snd (defineMetadata h target metadataKey v None s)) s vs"

text \<open>
  Two hosts for concrete runs. In \<open>example_host\<close> every object is a plain table,
  rendered as \<open>table\<close> and \<open>r\<close> plus signs. In \<open>class_host\<close> object \<open>0\<close> is a class
  and every other object is an instance of it; the class has a \<^verbatim>\<open>toString\<close> method
  that gives \<open>Named\<close>, which is also how the class itself is rendered.
\<close>

definition example_host :: host where
  "example_host =
     \<lparr>tostring_obj = (\<lambda>r. ''table'' @ replicate r (CHR ''+'')),
      tostring_sym = (\<lambda>n. ''symbol''),
      parent = (\<lambda>r. None)\<rparr>"

definition class_host :: host where
  "class_host =
     \<lparr>tostring_obj = (\<lambda>r. ''Named''),
      tostring_sym = (\<lambda>n. ''symbol''),
      parent = (\<lambda>r. if r = 0 then None else Some 0)\<rparr>"

section \<open>Properties\<close>

subsection \<open>Maps and scope IDs\<close>

lemma map_of_map_set: "map_of (map_set m k v) = (map_of m)(k \<mapsto> v)"
  by (induction m) auto

lemma map_of_map_erase: "map_of (map_erase m k) = (map_of m)(k := None)"
  unfolding map_erase_def by (induction m) auto

lemma map_set_twice: "map_set (map_set m k v) k w = map_set m k w"
  by (induction m) auto

lemma map_set_same: "map_of m k = Some v \<Longrightarrow> map_set m k v = m"
  by (induction m) (auto split: if_splits)

lemma map_set_keys_same: "map_of m k = Some v \<Longrightarrow> map fst (map_set m k w) = map fst m"
  by (induction m) (auto split: if_splits)

lemma getMapKeys_foldl: "foldl (\<lambda>result p. result @ [fst p]) acc m = acc @ map fst m"
  by (induction m arbitrary: acc) auto

lemma getMapKeys_eq: "getMapKeys m = map fst m"
  by (simp add: getMapKeys_def getMapKeys_foldl)

lemma getKeyId_member_neq_entity: "getKeyId h T (Some p) \<noteq> getKeyId h T None"
  by (simp add: getKeyId_def)

lemma getKeyId_members_neq:
  "m1 \<noteq> m2 \<Longrightarrow> getKeyId h T (Some (PStr m1)) \<noteq> getKeyId h T (Some (PStr m2))"
  by (simp add: getKeyId_def)

subsection \<open>The field read\<close>

lemma lookup_chain_self: "r \<in> set (lookup_chain h r)"
  by (subst lookup_chain.simps) simp

lemma field_owner_rec:
  "field_owner h s r =
     (if s r \<noteq> None then Some r
      else case parent h r of
             None \<Rightarrow> None
           | Some p \<Rightarrow> if p < r then field_owner h s p else None)"
  unfolding field_owner_def
  by (subst lookup_chain.simps) (simp split: option.splits)

lemma field_owner_SomeD:
  "field_owner h s r = Some x \<Longrightarrow> s x \<noteq> None \<and> x \<in> set (lookup_chain h r)"
  unfolding field_owner_def by (auto simp: find_Some_iff)


lemma field_owner_same_cells:
  "(\<And>x. (s' x = None) = (s x = None)) \<Longrightarrow> field_owner h s' r = field_owner h s r"
  unfolding field_owner_def by simp

lemma field_owner_self: "s r \<noteq> None \<Longrightarrow> field_owner h s r = Some r"
  by (subst field_owner_rec) simp

lemma field_owner_empty: "field_owner h empty_heap r = None"
  unfolding field_owner_def empty_heap_def by (simp add: find_None_iff)


lemma target_owner_in_chain: "target_owner h s r \<in> set (lookup_chain h r)"
  by (auto simp: target_owner_def lookup_chain_self dest: field_owner_SomeD split: option.splits)

subsection \<open>The operations on an object\<close>

lemma annotator_eq: "annotator h K V T pk s = define_imperative h T K V pk s"
  by (simp add: annotator_def define_imperative_def)

lemma hasMetadata_obj:
  "hasMetadata h (Obj r) K pk s =
     (Returned (case scope h s r pk of None \<Rightarrow> False | Some m \<Rightarrow> metadata_get m K \<noteq> Undefined), s)"
  by (auto simp: hasMetadata_def getMetadataStore_def scope_def map_has_def map_get_def Let_def
      split: option.splits)

lemma getMetadata_obj:
  "getMetadata h (Obj r) K pk s =
     (Returned (case scope h s r pk of None \<Rightarrow> Undefined | Some m \<Rightarrow> metadata_get m K), s)"
  by (auto simp: getMetadata_def getMetadataStore_def scope_def map_has_def map_get_def Let_def
      split: option.splits)

lemma getMetadataKeys_obj:
  "getMetadataKeys h (Obj r) pk s =
     (Returned (case scope h s r pk of None \<Rightarrow> None | Some m \<Rightarrow> Some (map fst m)), s)"
  by (auto simp: getMetadataKeys_def getMetadataStore_def scope_def map_has_def map_get_def Let_def
      getMapKeys_eq split: option.splits)

lemma createOrGet_obj:
  "createOrGetMetadataStore h (Obj r) s =
     (Returned (Some (target_owner h s r)),
      (case field_owner h s r of None \<Rightarrow> s(r \<mapsto> []) | Some x \<Rightarrow> s))"
proof (cases "field_owner h s r")
  case None
  then show ?thesis
    by (simp add: createOrGetMetadataStore_def read_field_def target_owner_def field_owner_self)
next
  case (Some x)
  with field_owner_SomeD[OF Some] show ?thesis
    by (auto simp: createOrGetMetadataStore_def read_field_def target_owner_def)
qed

lemma define_imperative_obj:
  "define_imperative h (Obj r) K V pk s =
     ((if K = Undefined then Raised KeyAbsent else Returned ()),
      s(target_owner h s r \<mapsto>
          map_set (case read_field h s r of None \<Rightarrow> [] | Some ms \<Rightarrow> ms)
            (getKeyId h (Obj r) pk) (written (scope h s r pk) K V)))"
proof (cases "field_owner h s r")
  case None
  have f: "field_owner h (s(r \<mapsto> [])) r = Some r" by (simp add: field_owner_self)
  show ?thesis
    by (simp add: define_imperative_def createOrGet_obj None hasMetadata_obj scope_def
        read_field_def f target_owner_def store_set_def store_of_def map_get_def map_of_map_set
        map_set_twice written_def metadata_set_def map_get_def Let_def)
next
  case (Some x)
  from field_owner_SomeD[OF Some] obtain ms where ms: "s x = Some ms" by auto
  show ?thesis
    by (auto simp: define_imperative_def createOrGet_obj Some hasMetadata_obj scope_def
        read_field_def ms target_owner_def store_set_def store_of_def map_get_def map_of_map_set
        map_set_twice written_def metadata_set_def map_set_same Let_def
        split: option.splits)
qed

lemma define_imperative_not_obj:
  "(\<And>r. T \<noteq> Obj r) \<Longrightarrow> snd (define_imperative h T K V pk s) = s"
  by (cases T) (auto simp: define_imperative_def createOrGetMetadataStore_def)

lemma defineMetadata_snd:
  "snd (defineMetadata h a1 a2 a3 a4 s) =
     (if a3 = Undefined \<and> a4 = None \<and> typeIs_string a1 then s
      else snd (define_imperative h a1 a2 a3 a4 s))"
  by (auto simp: defineMetadata_def split: prod.splits outcome.splits)

lemma defineMetadata_obj_snd:
  "snd (defineMetadata h (Obj r) K V pk s) = snd (define_imperative h (Obj r) K V pk s)"
  by (simp add: defineMetadata_snd typeIs_string_def)

lemma field_owner_after_define:
  "field_owner h (snd (define_imperative h (Obj r) K V pk s)) r = Some (target_owner h s r)"
proof (cases "field_owner h s r")
  case None
  then show ?thesis
    by (simp add: define_imperative_obj target_owner_def field_owner_self)
next
  case (Some x)
  from field_owner_SomeD[OF Some] have "s x \<noteq> None" by simp
  then have "field_owner h (s(x \<mapsto> ms)) r = field_owner h s r" for ms
    by (intro field_owner_same_cells) auto
  with Some show ?thesis
    by (simp add: define_imperative_obj target_owner_def)
qed

lemma read_field_after_define:
  "read_field h (snd (define_imperative h (Obj r) K V pk s)) r =
     Some (map_set (case read_field h s r of None \<Rightarrow> [] | Some ms \<Rightarrow> ms)
             (getKeyId h (Obj r) pk) (written (scope h s r pk) K V))"
  unfolding read_field_def[of h "snd (define_imperative h (Obj r) K V pk s)"]
    field_owner_after_define
  by (simp add: define_imperative_obj)

lemma scope_define_same:
  "scope h (snd (define_imperative h (Obj r) K V pk s)) r pk = Some (written (scope h s r pk) K V)"
  unfolding scope_def[of h "snd (define_imperative h (Obj r) K V pk s)"] read_field_after_define
  by (simp add: map_get_def map_of_map_set)

lemma scope_define_other_member:
  "getKeyId h (Obj r) pk' \<noteq> getKeyId h (Obj r) pk \<Longrightarrow>
   scope h (snd (define_imperative h (Obj r) K V pk s)) r pk' = scope h s r pk'"
  unfolding scope_def[of h "snd (define_imperative h (Obj r) K V pk s)"] read_field_after_define
  by (auto simp: scope_def map_get_def map_of_map_set split: option.splits)

lemma metadata_get_written_same:
  "K \<noteq> Undefined \<Longrightarrow> metadata_get (written old K V) K = V"
  by (auto simp: written_def metadata_set_def metadata_get_def map_get_def map_of_map_set
      map_of_map_erase Let_def split: option.splits)

lemma metadata_get_written_other:
  "K' \<noteq> K \<Longrightarrow> (case old of None \<Rightarrow> True | Some m \<Rightarrow> metadata_get m K = Undefined) \<Longrightarrow>
   metadata_get (written old K' V) K = Undefined"
  by (auto simp: written_def metadata_set_def metadata_get_def map_get_def map_of_map_set
      map_of_map_erase Let_def split: option.splits)

lemma scope_empty: "scope h empty_heap r pk = None"
  by (simp add: scope_def read_field_def field_owner_empty)

lemma has_empty: "fst (hasMetadata h T K pk empty_heap) = Returned False"
  by (cases T) (simp_all add: hasMetadata_def getMetadataStore_def read_field_def field_owner_empty)

lemma get_after_define:
  "fst (getMetadata h (Obj r) (Str k) None (snd (defineMetadata h (Obj r) (Str k) V None s)))
     = Returned V"
  by (simp add: getMetadata_obj defineMetadata_obj_snd scope_define_same metadata_get_written_same)

lemma written_again:
  assumes "K \<noteq> Undefined" "V \<noteq> Undefined"
  shows "written (Some (written old K V)) K W =
           (if W = Undefined then map_erase (written old K V) K else map_set (written old K V) K W)"
  using assms metadata_get_written_same[of K old V]
  by (simp add: written_def[of "Some (written old K V)"] metadata_set_def)

lemma map_of_written_same:
  "K \<noteq> Undefined \<Longrightarrow> V \<noteq> Undefined \<Longrightarrow> map_of (written old K V) K = Some V"
  by (auto simp: written_def metadata_set_def map_of_map_set Let_def split: option.splits)


subsection \<open>Keys that no call writes, and objects that share a store\<close>

lemma unwritten_empty: "unwritten h empty_heap r K"
  by (simp add: unwritten_def empty_heap_def)

lemma unwritten_has:
  assumes "unwritten h s r K"
  shows "fst (hasMetadata h (Obj r) K None s) = Returned False"
proof (cases "field_owner h s r")
  case None
  then show ?thesis by (simp add: hasMetadata_obj scope_def read_field_def)
next
  case (Some x)
  from field_owner_SomeD[OF Some] assms show ?thesis
    by (auto simp: hasMetadata_obj scope_def read_field_def Some unwritten_def
        split: option.splits)
qed

lemma unwritten_define:
  assumes nn: "\<not> names_scope h T K' pk r K" and un: "unwritten h s r K"
  shows "unwritten h (snd (define_imperative h T K' V pk s)) r K"
proof (cases T)
  case (Obj r')
  let ?o = "target_owner h s r'"
  let ?st0 = "case read_field h s r' of None \<Rightarrow> [] | Some ms \<Rightarrow> ms"
  let ?kid = "getKeyId h (Obj r) None"
  let ?kid' = "getKeyId h (Obj r') pk"
  let ?w = "written (scope h s r' pk) K' V"
  have s': "snd (define_imperative h T K' V pk s) = s(?o \<mapsto> map_set ?st0 ?kid' ?w)"
    unfolding Obj by (simp add: define_imperative_obj)
  show ?thesis unfolding s' unwritten_def
  proof
    fix x assume x: "x \<in> set (lookup_chain h r)"
    show "case (s(?o \<mapsto> map_set ?st0 ?kid' ?w)) x of
            None \<Rightarrow> True
          | Some ms \<Rightarrow> (case map_get ms ?kid of
                         None \<Rightarrow> True
                       | Some m \<Rightarrow> metadata_get m K = Undefined)"
    proof (cases "x = ?o")
      case False
      with un x show ?thesis by (simp add: unwritten_def)
    next
      case True
      with x target_owner_in_chain[of h s r'] have "shares_chain h r r'"
        by (auto simp: shares_chain_def)
      with nn Obj have ne: "K' \<noteq> K \<or> ?kid' \<noteq> ?kid"
        by (auto simp: names_scope_def)
      have old: "case map_get ?st0 ?kid of None \<Rightarrow> True | Some m \<Rightarrow> metadata_get m K = Undefined"
      proof (cases "field_owner h s r'")
        case None
        then show ?thesis by (simp add: read_field_def map_get_def)
      next
        case (Some y)
        then have "y = x" using True by (simp add: target_owner_def)
        with un x Some field_owner_SomeD[OF Some] show ?thesis
          by (auto simp: unwritten_def read_field_def map_get_def split: option.splits)
      qed
      show ?thesis
      proof (cases "?kid' = ?kid")
        case False
        with old True show ?thesis by (simp add: map_get_def map_of_map_set)
      next
        case same: True
        with ne have k: "K' \<noteq> K" by simp
        have "scope h s r' pk = map_get ?st0 ?kid"
          by (simp add: scope_def same map_get_def split: option.splits)
        with old have "case scope h s r' pk of None \<Rightarrow> True | Some m \<Rightarrow> metadata_get m K = Undefined"
          by simp
        from metadata_get_written_other[OF k this] True same show ?thesis
          by (simp add: map_get_def map_of_map_set)
      qed
    qed
  qed
qed (use un in \<open>simp_all add: define_imperative_not_obj\<close>)

lemma unwritten_perform:
  assumes "\<not> writes_scope h e r K" and "unwritten h s r K"
  shows "unwritten h (perform h e s) r K"
proof (cases e)
  case (Define a1 a2 a3 a4)
  with assms(1) have "\<not> names_scope h a1 a2 a4 r K" by simp
  from unwritten_define[OF this assms(2)] assms(2) show ?thesis
    unfolding Define by (simp add: defineMetadata_snd)
next
  case (Annotate k v t pk)
  with assms(1) have "\<not> names_scope h t k pk r K" by simp
  from unwritten_define[OF this assms(2)] show ?thesis
    unfolding Annotate by (simp add: annotator_eq)
qed

lemma unwritten_run:
  assumes "\<forall>e \<in> set es. \<not> writes_scope h e r K" and "unwritten h s r K"
  shows "unwritten h (run h es s) r K"
  using assms unfolding run_def
  by (induction es arbitrary: s) (simp_all add: unwritten_perform)



subsection \<open>The two hosts\<close>

lemma lookup_chain_example: "lookup_chain example_host r = [r]"
  by (subst lookup_chain.simps) (simp add: example_host_def)

lemma read_field_example: "read_field example_host s r = s r"
  by (simp add: read_field_def field_owner_def lookup_chain_example split: option.splits)

lemma getKeyId_example:
  "getKeyId example_host (Obj r) None = ''table'' @ replicate r (CHR ''+'')"
  "getKeyId example_host (Obj r) (Some (PStr m)) = ''table'' @ replicate r (CHR ''+'') @ ''.'' @ m"
  by (simp_all add: getKeyId_def example_host_def)

lemma lookup_chain_class:
  "lookup_chain class_host r = (if r = 0 then [0] else [r, 0])"
  by (subst lookup_chain.simps, subst lookup_chain.simps) (simp add: class_host_def)

section \<open>The claims\<close>

text \<open>
  C1. After \<^verbatim>\<open>defineMetadata(T, K1, V1)\<close> and \<^verbatim>\<open>defineMetadata(T, K2, V2)\<close> with
  different keys, \<^verbatim>\<open>getMetadataKeys(T)\<close> is claimed to list both keys in the order of
  their first definition. The code does not do that: the writing body makes a new map
  for the scope whenever \<^verbatim>\<open>hasMetadata\<close> is false for the key being written, so
  writing a second key discards the first. On a target that has no metadata yet, the
  key list after the two calls is the second key alone.
\<close>

theorem second_key_resets_scope:
  assumes "K1 \<noteq> K2" "K1 \<noteq> Undefined" "K2 \<noteq> Undefined" "V1 \<noteq> Undefined" "V2 \<noteq> Undefined"
  shows "fst (getMetadataKeys h (Obj r) None
          (snd (defineMetadata h (Obj r) K2 V2 None
             (snd (defineMetadata h (Obj r) K1 V1 None empty_heap)))))
        = Returned (Some [K2])"
  using assms
  by (simp add: getMetadataKeys_obj defineMetadata_obj_snd scope_define_same scope_empty written_def
      metadata_set_def metadata_get_def map_get_def map_erase_def)

theorem second_key_resets_scope_witness:
  "fst (getMetadataKeys example_host (Obj 0) None
          (snd (defineMetadata example_host (Obj 0) (Str ''author'') (Str ''John Doe'') None
             (snd (defineMetadata example_host (Obj 0) (Str ''version'') (Str ''1.0'') None
                empty_heap)))))
        = Returned (Some [Str ''author''])"
  using second_key_resets_scope [where ?K1.0 = "Str ''version''" and ?K2.0 = "Str ''author''"
      and ?V1.0 = "Str ''1.0''" and ?V2.0 = "Str ''John Doe''" and h = example_host and r = 0]
  by simp

text \<open>
  C2. \<^verbatim>\<open>defineMetadata\<close> with the absent target is claimed to return normally and to
  change nothing. It changes nothing, but it does not return: for every key, value
  and member the call takes the imperative path, where \<^verbatim>\<open>createOrGetMetadataStore\<close>
  reads a field of the absent target, and that raises.
\<close>

theorem define_absent_target_raises:
  "defineMetadata h Undefined K V pk s = (Raised IndexAbsent, s)"
  by (simp add: defineMetadata_def define_imperative_def createOrGetMetadataStore_def
      typeIs_string_def)

theorem define_absent_target_counterexample:
  "defineMetadata example_host Undefined (Str ''version'') (Str ''1.0'') None empty_heap
     \<noteq> (Returned Void, empty_heap)"
  by (simp add: defineMetadata_def define_imperative_def createOrGetMetadataStore_def
      typeIs_string_def)

text \<open>
  C3. \<^verbatim>\<open>hasMetadata(T, K)\<close> is false before any \<^verbatim>\<open>defineMetadata(T, K, V)\<close> and true
  right after one. As stated this fails twice. A definition with the value
  \<open>Undefined\<close> leaves \<^verbatim>\<open>hasMetadata\<close> false, since \<^verbatim>\<open>hasMetadata\<close> compares the
  stored value with \<^verbatim>\<open>undefined\<close>. And \<^verbatim>\<open>hasMetadata\<close> can be true for an object
  that no call has named: the store is found by a field read, so an instance reads the
  store of its class, and the scope is named by the rendering of the target, which
  two instances can share. What holds: \<^verbatim>\<open>hasMetadata(T, K)\<close> is false after every
  run, from the heap without metadata, that has no call with key \<open>K\<close>, the scope ID of
  \<open>T\<close> and a target whose lookup chain meets that of \<open>T\<close>; and it is true right after
  a definition with a value other than \<open>Undefined\<close>, from every heap.
\<close>

theorem has_false_before_true_after:
  "((\<forall>e \<in> set es. \<not> writes_scope h e r (Str k)) \<longrightarrow>
      fst (hasMetadata h (Obj r) (Str k) None (run h es empty_heap)) = Returned False)
   \<and> (V \<noteq> Undefined \<longrightarrow>
      fst (hasMetadata h (Obj r) (Str k) None (snd (defineMetadata h (Obj r) (Str k) V None s)))
        = Returned True)"
proof (intro conjI impI)
  assume "\<forall>e \<in> set es. \<not> writes_scope h e r (Str k)"
  then have "unwritten h (run h es empty_heap) r (Str k)"
    by (rule unwritten_run) (rule unwritten_empty)
  then show "fst (hasMetadata h (Obj r) (Str k) None (run h es empty_heap)) = Returned False"
    by (rule unwritten_has)
next
  assume "V \<noteq> Undefined"
  then show "fst (hasMetadata h (Obj r) (Str k) None
                (snd (defineMetadata h (Obj r) (Str k) V None s))) = Returned True"
    by (simp add: hasMetadata_obj defineMetadata_obj_snd scope_define_same
        metadata_get_written_same)
qed

theorem has_false_before_true_after_witness:
  "fst (hasMetadata example_host (Obj 0) (Str ''author'') None
      (run example_host
         [Define (Obj 0) (Str ''version'') (Str ''1.0'') None,
          Define (Obj 1) (Str ''author'') (Str ''Jane'') None,
          Annotate (Str ''author'') (Str ''Joe'') (Obj 0) (Some (PStr ''method1''))]
         empty_heap)) = Returned False
   \<and> fst (hasMetadata class_host (Obj 2) (Str ''author'') None
      (run class_host
         [Define (Obj 0) (Str ''kind'') (Str ''class'') None,
          Define (Obj 1) (Str ''tag'') (Str ''v'') None]
         empty_heap)) = Returned False
   \<and> fst (hasMetadata example_host (Obj 0) (Str ''author'') None
      (snd (defineMetadata example_host (Obj 0) (Str ''author'') (Str ''John Doe'') None
         empty_heap))) = Returned True"
  using
    has_false_before_true_after [where es =
      "[Define (Obj 0) (Str ''version'') (Str ''1.0'') None,
        Define (Obj 1) (Str ''author'') (Str ''Jane'') None,
        Annotate (Str ''author'') (Str ''Joe'') (Obj 0) (Some (PStr ''method1''))]"
      and r = 0 and k = "''author''" and V = "Str ''John Doe''" and h = example_host
      and s = empty_heap]
    has_false_before_true_after [where es =
      "[Define (Obj 0) (Str ''kind'') (Str ''class'') None,
        Define (Obj 1) (Str ''tag'') (Str ''v'') None]"
      and r = 2 and k = "''author''" and V = "Str ''John Doe''" and h = class_host
      and s = empty_heap]
  by (simp add: names_scope_def getKeyId_def example_host_def)

theorem has_metadata_counterexample:
  "fst (hasMetadata example_host (Obj 0) (Str ''version'') None
         (snd (defineMetadata example_host (Obj 0) (Str ''version'') Undefined None empty_heap)))
     = Returned False
   \<and> fst (hasMetadata class_host (Obj 2) (Str ''tag'') None
      (run class_host
         [Define (Obj 0) (Str ''kind'') (Str ''class'') None,
          Define (Obj 1) (Str ''tag'') (Str ''v'') None]
         empty_heap)) = Returned True"
proof
  show "fst (hasMetadata example_host (Obj 0) (Str ''version'') None
         (snd (defineMetadata example_host (Obj 0) (Str ''version'') Undefined None empty_heap)))
     = Returned False"
    by (simp add: hasMetadata_obj defineMetadata_obj_snd scope_define_same
        metadata_get_written_same)
  show "fst (hasMetadata class_host (Obj 2) (Str ''tag'') None
      (run class_host
         [Define (Obj 0) (Str ''kind'') (Str ''class'') None,
          Define (Obj 1) (Str ''tag'') (Str ''v'') None]
         empty_heap)) = Returned True"
    by code_simp
qed

text \<open>
  C4. A call of \<^verbatim>\<open>defineMetadata\<close> is declarative, that is, it returns an annotator
  and leaves the heap alone, exactly when the third and the fourth argument are absent
  and the first argument is a string. Every other call does what the imperative path
  does: the same heap, the same error if it raises, and no annotator.
\<close>

theorem declarative_iff:
  "((\<exists>k v. fst (defineMetadata h a1 a2 a3 a4 s) = Returned (Decorator k v))
      = (a3 = Undefined \<and> a4 = None \<and> (\<exists>t. a1 = Str t)))
   \<and> (a3 = Undefined \<and> a4 = None \<and> (\<exists>t. a1 = Str t) \<longrightarrow>
        defineMetadata h a1 a2 a3 a4 s = (Returned (Decorator a1 a2), s))
   \<and> (\<not> (a3 = Undefined \<and> a4 = None \<and> (\<exists>t. a1 = Str t)) \<longrightarrow>
        snd (defineMetadata h a1 a2 a3 a4 s) = snd (define_imperative h a1 a2 a3 a4 s)
        \<and> (fst (defineMetadata h a1 a2 a3 a4 s) = Returned Void)
            = (fst (define_imperative h a1 a2 a3 a4 s) = Returned ())
        \<and> (\<forall>e. (fst (defineMetadata h a1 a2 a3 a4 s) = Raised e)
            = (fst (define_imperative h a1 a2 a3 a4 s) = Raised e)))"
  by (cases a1; cases "define_imperative h a1 a2 a3 a4 s")
     (auto simp: defineMetadata_def typeIs_string_def split: outcome.splits)

theorem declarative_iff_witness:
  "defineMetadata example_host (Str ''version'') (Str ''1.0'') Undefined None empty_heap
     = (Returned (Decorator (Str ''version'') (Str ''1.0'')), empty_heap)
   \<and> fst (defineMetadata example_host (Obj 0) (Str ''version'') Undefined None empty_heap)
     = Returned Void
   \<and> fst (defineMetadata example_host (Str ''version'') (Str ''1.0'') Undefined
        (Some (PStr ''method1'')) empty_heap) = Raised IndexString"
proof -
  have a: "fst (define_imperative example_host (Obj 0) (Str ''version'') Undefined None empty_heap)
             = Returned ()"
    by (simp add: define_imperative_obj)
  have b: "fst (define_imperative example_host (Str ''version'') (Str ''1.0'') Undefined
             (Some (PStr ''method1'')) empty_heap) = Raised IndexString"
    by (simp add: define_imperative_def createOrGetMetadataStore_def)
  show ?thesis
    using a b
      declarative_iff [where ?a1.0 = "Str ''version''" and ?a2.0 = "Str ''1.0''"
        and ?a3.0 = Undefined and ?a4.0 = None and h = example_host and s = empty_heap]
      declarative_iff [where ?a1.0 = "Obj 0" and ?a2.0 = "Str ''version''"
        and ?a3.0 = Undefined and ?a4.0 = None and h = example_host and s = empty_heap]
      declarative_iff [where ?a1.0 = "Str ''version''" and ?a2.0 = "Str ''1.0''"
        and ?a3.0 = Undefined and ?a4.0 = "Some (PStr ''method1'')" and h = example_host
        and s = empty_heap]
    by simp
qed

text \<open>
  C5. Writing key \<open>K\<close> for member \<open>m1\<close> of a target changes neither what
  \<^verbatim>\<open>getMetadata\<close> returns for \<open>K\<close> in the entity scope of the target nor what it
  returns for \<open>K\<close> in the scope of another member \<open>m2\<close>.
\<close>

theorem member_scope_isolated:
  assumes "m1 \<noteq> m2"
  shows "fst (getMetadata h T K None (snd (defineMetadata h T K V1 (Some (PStr m1)) s)))
           = fst (getMetadata h T K None s)
       \<and> fst (getMetadata h T K (Some (PStr m2))
                (snd (defineMetadata h T K V1 (Some (PStr m1)) s)))
           = fst (getMetadata h T K (Some (PStr m2)) s)"
proof (cases T)
  case (Obj r)
  have a: "getKeyId h (Obj r) None \<noteq> getKeyId h (Obj r) (Some (PStr m1))"
    using getKeyId_member_neq_entity[of h "Obj r" "PStr m1"] by simp
  have b: "getKeyId h (Obj r) (Some (PStr m2)) \<noteq> getKeyId h (Obj r) (Some (PStr m1))"
    using getKeyId_members_neq[of m2 m1] assms by simp
  show ?thesis unfolding Obj
    by (simp add: getMetadata_obj defineMetadata_snd scope_define_other_member[OF a]
        scope_define_other_member[OF b])
qed (simp_all add: defineMetadata_snd define_imperative_not_obj)

theorem member_scope_isolated_witness:
  "''method1'' \<noteq> ''method2''
   \<and> fst (getMetadata example_host (Obj 0) (Str ''description'') None
         (snd (defineMetadata example_host (Obj 0) (Str ''description'') (Str ''x'')
                (Some (PStr ''method1''))
            (snd (defineMetadata example_host (Obj 0) (Str ''description'') (Str ''class'') None
                    empty_heap)))))
       = Returned (Str ''class'')
   \<and> fst (getMetadata example_host (Obj 0) (Str ''description'') (Some (PStr ''method2''))
         (snd (defineMetadata example_host (Obj 0) (Str ''description'') (Str ''x'')
                (Some (PStr ''method1''))
            (snd (defineMetadata example_host (Obj 0) (Str ''description'') (Str ''class'') None
                    empty_heap)))))
       = Returned Undefined"
proof -
  have ne: "''method1'' \<noteq> ''method2''" by simp
  let ?s = "snd (defineMetadata example_host (Obj 0) (Str ''description'') (Str ''class'') None
                    empty_heap)"
  have a: "fst (getMetadata example_host (Obj 0) (Str ''description'') None ?s)
             = Returned (Str ''class'')"
    by (rule get_after_define)
  have "getKeyId example_host (Obj 0) (Some (PStr ''method2'')) \<noteq> getKeyId example_host (Obj 0) None"
    by (rule getKeyId_member_neq_entity)
  then have b: "fst (getMetadata example_host (Obj 0) (Str ''description'')
                  (Some (PStr ''method2'')) ?s) = Returned Undefined"
    by (simp add: getMetadata_obj defineMetadata_obj_snd scope_define_other_member scope_empty)
  show ?thesis
    using ne a b member_scope_isolated [OF ne, where h = example_host and T = "Obj 0"
        and K = "Str ''description''" and ?V1.0 = "Str ''x''" and s = ?s]
    by simp
qed

text \<open>
  C6. The three read operations return the heap they were given: no slot and no
  metadata map is made by \<^verbatim>\<open>getMetadataKeys\<close>, \<^verbatim>\<open>hasMetadata\<close> or
  \<^verbatim>\<open>getMetadata\<close>, whatever the target, the key and the member.
\<close>

theorem reads_leave_heap:
  "snd (getMetadataKeys h T m s) = s
   \<and> snd (hasMetadata h T K m s) = s
   \<and> snd (getMetadata h T K m s) = s"
  by (auto simp: getMetadataKeys_def hasMetadata_def getMetadata_def Let_def
      split: option.splits)

theorem reads_leave_heap_witness:
  "snd (getMetadataKeys example_host (Obj 0) None empty_heap) = empty_heap
   \<and> snd (hasMetadata example_host (Obj 0) (Str ''version'') None empty_heap) = empty_heap
   \<and> snd (getMetadata example_host (Obj 0) (Str ''version'') None empty_heap) = empty_heap
   \<and> empty_heap 0 = None"
  using reads_leave_heap [where h = example_host and T = "Obj 0" and K = "Str ''version''"
      and m = None and s = empty_heap]
  by (simp add: empty_heap_def)

text \<open>
  C7. After any sequence of one or more definitions of key \<open>K\<close> in the entity scope
  of an object, \<^verbatim>\<open>getMetadata\<close> returns the value of the last one. A second
  definition replaces the value of the first and adds no key to the key list.
\<close>

theorem get_returns_latest:
  "(vs \<noteq> [] \<longrightarrow>
      fst (getMetadata h (Obj r) (Str k) None (define_all h (Obj r) (Str k) vs s))
        = Returned (last vs))
   \<and> (V1 \<noteq> Undefined \<and> V2 \<noteq> Undefined \<longrightarrow>
      fst (getMetadataKeys h (Obj r) None (define_all h (Obj r) (Str k) [V1, V2] s))
        = fst (getMetadataKeys h (Obj r) None (define_all h (Obj r) (Str k) [V1] s)))"
proof (intro conjI impI)
  assume "vs \<noteq> []"
  then obtain ws v where vs: "vs = ws @ [v]"
    by (metis append_butlast_last_id)
  show "fst (getMetadata h (Obj r) (Str k) None (define_all h (Obj r) (Str k) vs s))
          = Returned (last vs)"
    unfolding vs define_all_def by (simp add: get_after_define)
next
  assume v: "V1 \<noteq> Undefined \<and> V2 \<noteq> Undefined"
  then have "map_of (written (scope h s r None) (Str k) V1) (Str k) = Some V1"
    by (simp add: map_of_written_same)
  with v show "fst (getMetadataKeys h (Obj r) None (define_all h (Obj r) (Str k) [V1, V2] s))
        = fst (getMetadataKeys h (Obj r) None (define_all h (Obj r) (Str k) [V1] s))"
    by (simp add: define_all_def getMetadataKeys_obj defineMetadata_obj_snd scope_define_same
        written_again map_set_keys_same)
qed

theorem get_returns_latest_witness:
  "fst (getMetadata example_host (Obj 0) (Str ''version'') None
         (define_all example_host (Obj 0) (Str ''version'') [Str ''1.0'', Str ''1.1'', Str ''2.0'']
            empty_heap)) = Returned (Str ''2.0'')
   \<and> fst (getMetadataKeys example_host (Obj 0) None
         (define_all example_host (Obj 0) (Str ''version'') [Str ''1.0'', Str ''1.1''] empty_heap))
       = Returned (Some [Str ''version''])"
proof -
  have a: "fst (getMetadataKeys example_host (Obj 0) None
         (define_all example_host (Obj 0) (Str ''version'') [Str ''1.0''] empty_heap))
       = Returned (Some [Str ''version''])"
    by (simp add: define_all_def getMetadataKeys_obj defineMetadata_obj_snd scope_define_same
        scope_empty written_def metadata_set_def)
  show ?thesis
    using a
      get_returns_latest [where vs = "[Str ''1.0'', Str ''1.1'', Str ''2.0'']" and h = example_host
        and r = 0 and k = "''version''" and s = empty_heap and ?V1.0 = "Str ''1.0''"
        and ?V2.0 = "Str ''1.1''"]
    by simp
qed






text \<open>
  C10. In every heap the two reads agree: \<^verbatim>\<open>hasMetadata\<close> returns true exactly when
  \<^verbatim>\<open>getMetadata\<close> returns a value other than \<open>Undefined\<close>, and false exactly when
  \<^verbatim>\<open>getMetadata\<close> returns \<open>Undefined\<close>.
\<close>

theorem has_agrees_with_get:
  "(fst (hasMetadata h T K m s) = Returned True)
      = (\<exists>v. fst (getMetadata h T K m s) = Returned v \<and> v \<noteq> Undefined)
   \<and> (fst (hasMetadata h T K m s) = Returned False)
      = (fst (getMetadata h T K m s) = Returned Undefined)"
  by (auto simp: hasMetadata_def getMetadata_def getMetadataStore_def map_has_def map_get_def
      Let_def split: option.splits any.splits)

theorem has_agrees_with_get_witness:
  "fst (hasMetadata example_host (Obj 0) (Str ''a'') None
          (empty_heap(0 \<mapsto> [(''table'', [(Str ''a'', Undefined), (Str ''b'', Str ''x'')])])))
     = Returned False
   \<and> fst (getMetadata example_host (Obj 0) (Str ''a'') None
          (empty_heap(0 \<mapsto> [(''table'', [(Str ''a'', Undefined), (Str ''b'', Str ''x'')])])))
     = Returned Undefined
   \<and> fst (hasMetadata example_host (Obj 0) (Str ''b'') None
          (empty_heap(0 \<mapsto> [(''table'', [(Str ''a'', Undefined), (Str ''b'', Str ''x'')])])))
     = Returned True
   \<and> fst (getMetadata example_host (Obj 0) (Str ''b'') None
          (empty_heap(0 \<mapsto> [(''table'', [(Str ''a'', Undefined), (Str ''b'', Str ''x'')])])))
     = Returned (Str ''x'')"
proof -
  let ?s = "empty_heap(0 \<mapsto> [(''table'', [(Str ''a'', Undefined), (Str ''b'', Str ''x'')])])"
  have sc: "scope example_host ?s 0 None = Some [(Str ''a'', Undefined), (Str ''b'', Str ''x'')]"
    by (simp add: scope_def read_field_example map_get_def getKeyId_example)
  have a: "fst (getMetadata example_host (Obj 0) (Str ''a'') None ?s) = Returned Undefined"
    by (simp add: getMetadata_obj sc metadata_get_def map_get_def)
  have b: "fst (getMetadata example_host (Obj 0) (Str ''b'') None ?s) = Returned (Str ''x'')"
    by (simp add: getMetadata_obj sc metadata_get_def map_get_def)
  show ?thesis
    using a b
      has_agrees_with_get [where h = example_host and T = "Obj 0" and K = "Str ''a''"
        and m = None and s = ?s]
      has_agrees_with_get [where h = example_host and T = "Obj 0" and K = "Str ''b''"
        and m = None and s = ?s]
    by simp
qed

end
